theory Spec2Isabelle
  imports Main "HOL-Library.Multiset" "HOL-Library.Product_Lexorder"
begin

section \<open>Ranking of questions (server/models/application.ts)\<close>

text \<open>
  Dates are JavaScript \<open>Date\<close> objects; they are compared through their millisecond value,
  modelled as \<open>int\<close>. A \<open>Date\<close> object is always truthy, so \<open>!adate\<close> holds exactly when the
  lookup in the \<open>Map\<close> gave \<open>undefined\<close>.
\<close>

record answer =
  aid :: string
  ansBy :: string
  ansDateTime :: int

text \<open>
  A question as the ranking, voting and notification code reads it. \<open>_id\<close> is optional in
  the \<open>Question\<close> type (\<open>question._id !== undefined\<close> is tested), so it is an option here.
\<close>

record question =
  qid :: "string option"
  askedBy :: string
  askDateTime :: int
  answers :: "answer list"
  views :: "string list"
  upVotes :: "string list"
  downVotes :: "string list"
  subscribers :: "string list"

subsection \<open>Array.prototype.sort\<close>

text \<open>
  \<open>Array.prototype.sort\<close> sorts the array in place and is stable. The model is the binary
  insertion sort that the engine of Node.js runs on a short array: the element at position
  \<open>i\<close> is the pivot, \<open>comparefn(pivot, e)\<close> is called on elements \<open>e\<close> of the sorted prefix,
  and the pivot goes in front of the first element for which the call is negative. The
  comparison function is only ever called as \<open>comparefn(later, earlier)\<close>.
\<close>

fun js_insert :: "('a \<Rightarrow> 'a \<Rightarrow> int) \<Rightarrow> 'a \<Rightarrow> 'a list \<Rightarrow> 'a list" where
  "js_insert comparefn pivot [] = [pivot]"
| "js_insert comparefn pivot (e # es) =
     (if comparefn pivot e < 0 then pivot # e # es else e # js_insert comparefn pivot es)"

definition array_sort :: "('a \<Rightarrow> 'a \<Rightarrow> int) \<Rightarrow> 'a list \<Rightarrow> 'a list" where
  "array_sort comparefn xs = foldl (\<lambda>sorted_prefix pivot. js_insert comparefn pivot sorted_prefix) [] xs"

subsection \<open>The comparison functions\<close>

definition newestCompare :: "question \<Rightarrow> question \<Rightarrow> int" where
  "newestCompare a b =
     (if askDateTime a > askDateTime b then - 1
      else if askDateTime a < askDateTime b then 1
      else 0)"

text \<open>\<open>getMostRecentAnswerTime\<close>: one step of \<open>answers.forEach\<close>, then the whole loop.\<close>

definition recordAnswerTime :: "question \<Rightarrow> answer \<Rightarrow> (string \<rightharpoonup> int) \<Rightarrow> (string \<rightharpoonup> int)" where
  "recordAnswerTime quest ans mp =
     (case qid quest of
        None \<Rightarrow> mp
      | Some i \<Rightarrow>
          (case mp i of
             None \<Rightarrow> mp(i \<mapsto> ansDateTime ans)
           | Some currentMostRecent \<Rightarrow>
               if currentMostRecent < ansDateTime ans then mp(i \<mapsto> ansDateTime ans) else mp))"

definition getMostRecentAnswerTime :: "question \<Rightarrow> (string \<rightharpoonup> int) \<Rightarrow> (string \<rightharpoonup> int)" where
  "getMostRecentAnswerTime quest mp = fold (recordAnswerTime quest) (answers quest) mp"

text \<open>\<open>mp.get(a._id?.toString())\<close>: \<open>undefined\<close> is never a key of the map.\<close>

definition mp_get :: "(string \<rightharpoonup> int) \<Rightarrow> question \<Rightarrow> int option" where
  "mp_get mp a = (case qid a of None \<Rightarrow> None | Some i \<Rightarrow> mp i)"

definition activeCompare :: "(string \<rightharpoonup> int) \<Rightarrow> question \<Rightarrow> question \<Rightarrow> int" where
  "activeCompare mp a b =
     (case mp_get mp a of
        None \<Rightarrow> 1
      | Some adate \<Rightarrow>
          (case mp_get mp b of
             None \<Rightarrow> - 1
           | Some bdate \<Rightarrow>
               if adate > bdate then - 1
               else if adate < bdate then 1
               else 0))"

definition mostViewsCompare :: "question \<Rightarrow> question \<Rightarrow> int" where
  "mostViewsCompare a b = int (length (views b)) - int (length (views a))"

subsection \<open>Arrays are objects: a store of arrays\<close>

text \<open>
  \<open>qlist.sort(...)\<close> changes the array \<open>qlist\<close> and returns that same array; \<open>filter\<close>
  allocates a new one. The store maps a reference to the contents of the array it names;
  \<open>next_ref\<close> is the first reference not yet allocated.
\<close>

record arrays =
  cells :: "nat \<Rightarrow> question list"
  next_ref :: nat

definition sort_in_place :: "(question \<Rightarrow> question \<Rightarrow> int) \<Rightarrow> nat \<Rightarrow> arrays \<Rightarrow> nat \<times> arrays" where
  "sort_in_place comparefn r h = (r, h\<lparr>cells := (cells h)(r := array_sort comparefn (cells h r))\<rparr>)"

definition array_filter :: "(question \<Rightarrow> bool) \<Rightarrow> nat \<Rightarrow> arrays \<Rightarrow> nat \<times> arrays" where
  "array_filter p r h =
     (next_ref h,
      h\<lparr>cells := (cells h)(next_ref h := filter p (cells h r)), next_ref := Suc (next_ref h)\<rparr>)"

definition sortQuestionsByNewest :: "nat \<Rightarrow> arrays \<Rightarrow> nat \<times> arrays" where
  "sortQuestionsByNewest qlist h = sort_in_place newestCompare qlist h"

definition sortQuestionsByUnanswered :: "nat \<Rightarrow> arrays \<Rightarrow> nat \<times> arrays" where
  "sortQuestionsByUnanswered qlist h =
     (case sortQuestionsByNewest qlist h of
        (r, h1) \<Rightarrow> array_filter (\<lambda>q. length (answers q) = 0) r h1)"

definition sortQuestionsByActive :: "nat \<Rightarrow> arrays \<Rightarrow> nat \<times> arrays" where
  "sortQuestionsByActive qlist h =
     (let mp = fold getMostRecentAnswerTime (cells h qlist) Map.empty
      in case sortQuestionsByNewest qlist h of
           (r, h1) \<Rightarrow> sort_in_place (activeCompare mp) r h1)"

definition sortQuestionsByMostViews :: "nat \<Rightarrow> arrays \<Rightarrow> nat \<times> arrays" where
  "sortQuestionsByMostViews qlist h =
     (case sortQuestionsByNewest qlist h of
        (r, h1) \<Rightarrow> sort_in_place mostViewsCompare r h1)"

datatype OrderType = active | unanswered | newest | mostViewed

text \<open>The dispatch of \<open>getQuestionsByOrder\<close> on the array read from the store.\<close>

definition rank :: "OrderType \<Rightarrow> nat \<Rightarrow> arrays \<Rightarrow> nat \<times> arrays" where
  "rank order qlist h =
     (if order = active then sortQuestionsByActive qlist h
      else if order = unanswered then sortQuestionsByUnanswered qlist h
      else if order = newest then sortQuestionsByNewest qlist h
      else sortQuestionsByMostViews qlist h)"

text \<open>What the claims say about the order \<open>active\<close>, in the words of the specification.\<close>

definition latestAnswerTime :: "question \<Rightarrow> int option" where
  "latestAnswerTime q =
     (if answers q = [] then None else Some (Max (set (map ansDateTime (answers q)))))"

definition activeBefore :: "question \<Rightarrow> question \<Rightarrow> bool" where
  "activeBefore a b =
     (case latestAnswerTime a of
        None \<Rightarrow>
          (case latestAnswerTime b of
             None \<Rightarrow> askDateTime b \<le> askDateTime a
           | Some y \<Rightarrow> False)
      | Some x \<Rightarrow>
          (case latestAnswerTime b of
             None \<Rightarrow> True
           | Some y \<Rightarrow> y < x \<or> (x = y \<and> askDateTime b \<le> askDateTime a)))"

section \<open>The document store\<close>

text \<open>
  Every Mongoose model is a collection of documents, kept here as a list in the order in
  which \<open>find\<close> returns them. \<open>findOne\<close> returns the first document that matches the
  filter and \<open>findOneAndUpdate\<close> changes that same first match; with \<open>new: true\<close> it
  returns the document after the change. Store operations that fail for reasons outside the
  program (a lost connection) are not modelled: every operation below fails only where the
  source tests for it. An id is a string, and an id that names no document finds none;
  for a string that is no ObjectId at all the driver throws instead, which every function
  below turns into an error of its own as well. The calls that the source starts together
  and awaits with \<open>Promise.all\<close> run here one after the other, in the order of the list.
\<close>

datatype NotificationType =
  Answer | Comment | AnswerComment | Upvote | NewQuestion | NewPoll | PollClosed
  | NewArticle | ArticleUpdate | NewReward

text \<open>
  The \<open>Notification\<close> passed to \<open>notifyUsers\<close>. \<open>addNotificationToUser\<close> tests
  \<open>!notif.notificationType\<close> and \<open>notif.isRead === undefined\<close>, so both fields may be
  missing. A saved notification carries the \<open>_id\<close> the store gave it.
\<close>

record Notification =
  notificationType :: "NotificationType option"
  isRead :: "bool option"

record NotificationDoc = Notification +
  nid :: nat

record user =
  uid :: string
  username :: string
  notifications :: "nat list"
  blockedNotifications :: "NotificationType list"
  unlockedTitles :: "string list"

record community =
  members :: "string list"
  questions :: "string list"
  polls :: "string list"
  articles :: "string list"

record pollOption =
  oid :: string
  usersVoted :: "string list"

text \<open>
  A poll holds references to its options in the collection and the option documents once
  populated. In a document of the collection \<open>isClosed\<close> is what the collection keeps
  under that name, if anything; in a document that the program has read it is what
  \<open>poll.isClosed\<close> gives, \<open>None\<close> for \<open>undefined\<close>.
\<close>

record 'o poll =
  pid :: string
  options :: "'o list"
  createdBy :: string
  pollDueDate :: int
  isClosed :: "bool option"

text \<open>
  schema/poll.ts: the paths that \<open>pollSchema\<close> declares. The schema sets no \<open>strict\<close>
  option, so it is strict: a path that it does not declare is not defined on a document
  read through the model, and a \<open>$set\<close> of such a path is taken out of an update before
  the update reaches the collection.
\<close>

definition pollSchema :: "string list" where
  "pollSchema = [''title'', ''options'', ''createdBy'', ''pollDateTime'', ''pollDueDate'']"

record challenge =
  cid :: string
  challengeType :: string
  actionAmount :: int
  reward :: string
  hoursToComplete :: "int option"

text \<open>
  A user challenge holds a reference to its challenge in the store (\<open>string\<close>), the
  outcome of \<open>populate\<close> when read (\<open>challenge option\<close>, \<open>None\<close> for a reference that
  resolves to nothing), and the challenge itself once the code has tested it.
\<close>

record 'c userChallenge =
  ucid :: nat
  uc_username :: string
  uc_challenge :: 'c
  progress :: "int list"

record db =
  QuestionModel :: "question list"
  AnswerModel :: "answer list"
  UserModel :: "user list"
  CommunityModel :: "community list"
  NotificationModel :: "NotificationDoc list"
  PollModel :: "string poll list"
  PollOptionModel :: "pollOption list"
  ChallengeModel :: "challenge list"
  UserChallengeModel :: "string userChallenge list"

definition findOne :: "('a \<Rightarrow> bool) \<Rightarrow> 'a list \<Rightarrow> 'a option" where
  "findOne p docs = find p docs"

fun update_first :: "('a \<Rightarrow> bool) \<Rightarrow> ('a \<Rightarrow> 'a) \<Rightarrow> 'a list \<Rightarrow> 'a list" where
  "update_first p f [] = []"
| "update_first p f (d # ds) = (if p d then f d # ds else d # update_first p f ds)"

text \<open>The \<open>_id\<close> the store gives a new document: one not used in the collection.\<close>

definition fresh_id :: "nat list \<Rightarrow> nat" where
  "fresh_id ids = Suc (fold max ids 0)"

text \<open>\<open>$addToSet\<close>: append the value unless the array already holds it.\<close>

definition addToSet :: "'a \<Rightarrow> 'a list \<Rightarrow> 'a list" where
  "addToSet v vs = (if v \<in> set vs then vs else vs @ [v])"

section \<open>Notification fan-out\<close>

definition usersToNotifyOnNewAnswer :: "string \<Rightarrow> db \<Rightarrow> string + string list" where
  "usersToNotifyOnNewAnswer qid' d =
     (case findOne (\<lambda>q. qid q = Some qid') (QuestionModel d) of
        None \<Rightarrow> Inl ''Error retrieving users to notify''
      | Some quest \<Rightarrow> Inr (askedBy quest # subscribers quest))"

definition questionAskerToNotify :: "string \<Rightarrow> db \<Rightarrow> string + string list" where
  "questionAskerToNotify qid' d =
     (case findOne (\<lambda>q. qid q = Some qid') (QuestionModel d) of
        None \<Rightarrow> Inl ''Error retrieving users to notify''
      | Some quest \<Rightarrow> Inr [askedBy quest])"

definition userToNotifyOnAnswerComment :: "string \<Rightarrow> db \<Rightarrow> string + string list" where
  "userToNotifyOnAnswerComment answerID d =
     (case findOne (\<lambda>a. aid a = answerID) (AnswerModel d) of
        None \<Rightarrow> Inl ''Error retrieving users to notify''
      | Some ans \<Rightarrow> Inr [ansBy ans])"

datatype CommunityObjectType = Question | Poll | Article

definition fetchCommunityByObjectId :: "string \<Rightarrow> CommunityObjectType \<Rightarrow> db \<Rightarrow> string + community" where
  "fetchCommunityByObjectId oid' type d =
     (case (case type of
              Question \<Rightarrow> findOne (\<lambda>c. oid' \<in> set (questions c)) (CommunityModel d)
            | Poll \<Rightarrow> findOne (\<lambda>c. oid' \<in> set (polls c)) (CommunityModel d)
            | Article \<Rightarrow> findOne (\<lambda>c. oid' \<in> set (articles c)) (CommunityModel d)) of
        None \<Rightarrow> Inl ''Error retrieving community by object id''
      | Some c \<Rightarrow> Inr c)"

text \<open>
  A poll read through \<open>PollModel\<close> with \<open>populate\<close> of its options: a reference that
  resolves to nothing is dropped, and \<open>isClosed\<close> is defined on the document only if the
  schema declares it.
\<close>

definition populatePoll :: "db \<Rightarrow> string poll \<Rightarrow> pollOption poll" where
  "populatePoll d p =
     \<lparr>pid = pid p,
      options = List.map_filter (\<lambda>i. findOne (\<lambda>op. oid op = i) (PollOptionModel d)) (options p),
      createdBy = createdBy p,
      pollDueDate = pollDueDate p,
      isClosed = (if ''isClosed'' \<in> set pollSchema then isClosed p else None)\<rparr>"

definition usersToNotifyPollClosed :: "string \<Rightarrow> db \<Rightarrow> string + string list" where
  "usersToNotifyPollClosed pid' d =
     (case map_option (populatePoll d) (findOne (\<lambda>p. pid p = pid') (PollModel d)) of
        None \<Rightarrow> Inl ''Error retrieving users to notify''
      | Some p \<Rightarrow> Inr (createdBy p # concat (map usersVoted (options p))))"

definition userToNotifyForReward :: "string \<Rightarrow> db \<Rightarrow> string + string list" where
  "userToNotifyForReward uid' d =
     (case findOne (\<lambda>u. uid u = uid') (UserModel d) of
        None \<Rightarrow> Inl ''Error retrieving user to notify''
      | Some u \<Rightarrow> Inr [username u])"

text \<open>
  \<open>usersToNotify\<close>: the \<open>switch\<close> on the type; every exception of a resolver is caught and
  becomes the one error of \<open>usersToNotify\<close>. A type that is no member of the enum
  (here: a missing one) takes the \<open>default\<close> branch.
\<close>

definition usersToNotify :: "string \<Rightarrow> NotificationType option \<Rightarrow> db \<Rightarrow> string + string list" where
  "usersToNotify oid' type d =
     (case (case type of
              Some Answer \<Rightarrow> usersToNotifyOnNewAnswer oid' d
            | Some Comment \<Rightarrow> questionAskerToNotify oid' d
            | Some AnswerComment \<Rightarrow> userToNotifyOnAnswerComment oid' d
            | Some Upvote \<Rightarrow> questionAskerToNotify oid' d
            | Some NewQuestion \<Rightarrow> map_sum id members (fetchCommunityByObjectId oid' Question d)
            | Some NewPoll \<Rightarrow> map_sum id members (fetchCommunityByObjectId oid' Poll d)
            | Some PollClosed \<Rightarrow> usersToNotifyPollClosed oid' d
            | Some NewArticle \<Rightarrow> map_sum id members (fetchCommunityByObjectId oid' Article d)
            | Some ArticleUpdate \<Rightarrow> map_sum id members (fetchCommunityByObjectId oid' Article d)
            | Some NewReward \<Rightarrow> userToNotifyForReward oid' d
            | None \<Rightarrow> Inr []) of
        Inl thrown \<Rightarrow> Inl ''Error retrieving users to notify''
      | Inr usernames \<Rightarrow> Inr usernames)"

definition saveNotification :: "Notification \<Rightarrow> db \<Rightarrow> NotificationDoc \<times> db" where
  "saveNotification notification d =
     (let result = \<lparr>notificationType = notificationType notification,
                    isRead = isRead notification,
                    nid = fresh_id (map nid (NotificationModel d))\<rparr>
      in (result, d\<lparr>NotificationModel := NotificationModel d @ [result]\<rparr>))"

text \<open>\<open>usernames.map(_ => saveNotification(notification))\<close>: one document per entry.\<close>

fun saveNotifications :: "string list \<Rightarrow> Notification \<Rightarrow> db \<Rightarrow> NotificationDoc list \<times> db" where
  "saveNotifications [] notification d = ([], d)"
| "saveNotifications (u # us) notification d =
     (case saveNotification notification d of
        (result, d1) \<Rightarrow>
          (case saveNotifications us notification d1 of
             (results, d2) \<Rightarrow> (result # results, d2)))"

definition addNotificationToUser :: "string \<Rightarrow> NotificationDoc \<Rightarrow> db \<Rightarrow> (string + user) \<times> db" where
  "addNotificationToUser username' notif d =
     (case notificationType notif of
        None \<Rightarrow> (Inl ''Error when adding notification to user'', d)
      | Some type \<Rightarrow>
          if isRead notif = None then (Inl ''Error when adding notification to user'', d)
          else
            (case findOne (\<lambda>u. username u = username') (UserModel d) of
               None \<Rightarrow> (Inl ''Error when adding notification to user'', d)
             | Some usr \<Rightarrow>
                 if type \<in> set (blockedNotifications usr) then (Inr usr, d)
                 else
                   (Inr (usr\<lparr>notifications := nid notif # notifications usr\<rparr>),
                    d\<lparr>UserModel :=
                        update_first (\<lambda>u. username u = username')
                          (\<lambda>u. u\<lparr>notifications := nid notif # notifications u\<rparr>) (UserModel d)\<rparr>)))"

text \<open>
  \<open>usernames.map((username, i) => addNotificationToUser(username, notifsFromDb[i]))\<close>:
  every call runs to its end, whatever the others return, and none of them rejects.
\<close>

fun addNotificationsToUsers :: "(string \<times> NotificationDoc) list \<Rightarrow> db \<Rightarrow> (string + user) list \<times> db" where
  "addNotificationsToUsers [] d = ([], d)"
| "addNotificationsToUsers ((u, notif) # rest) d =
     (case addNotificationToUser u notif d of
        (userResponse, d1) \<Rightarrow>
          (case addNotificationsToUsers rest d1 of
             (userResponses, d2) \<Rightarrow> (userResponse # userResponses, d2)))"

definition notifyUsers :: "string option \<Rightarrow> Notification \<Rightarrow> db \<Rightarrow> (string + string list) \<times> db" where
  "notifyUsers oid' notification d =
     (case oid' of
        None \<Rightarrow> (Inl ''Error when adding notifications to users'', d)
      | Some i \<Rightarrow>
          if i = [] then (Inl ''Error when adding notifications to users'', d)
          else
            (case usersToNotify i (notificationType notification) d of
               Inl e \<Rightarrow> (Inl ''Error when adding notifications to users'', d)
             | Inr usernames \<Rightarrow>
                 if length usernames = 0 then (Inl ''Error when adding notifications to users'', d)
                 else
                   (case saveNotifications usernames notification d of
                      (notifsFromDb, d1) \<Rightarrow>
                        (case addNotificationsToUsers (zip usernames notifsFromDb) d1 of
                           (userResponses, d2) \<Rightarrow>
                             if list_ex isl userResponses
                             then (Inl ''Error when adding notifications to users'', d2)
                             else (Inr usernames, d2)))))"

text \<open>The notifications made for one recipient: those at the positions of the name.\<close>

definition notifsFor :: "string \<Rightarrow> string list \<Rightarrow> NotificationDoc list \<Rightarrow> nat list" where
  "notifsFor u usernames notifs = map (nid \<circ> snd) (filter (\<lambda>(n, x). n = u) (zip usernames notifs))"

text \<open>
  The inbox of a user after the notifications \<open>ids\<close> (the last one delivered first in the
  list) have been offered to them: unchanged when the type is blocked.
\<close>

definition deliver :: "NotificationType \<Rightarrow> nat list \<Rightarrow> user \<Rightarrow> user" where
  "deliver t ids usr =
     (if t \<in> set (blockedNotifications usr) then usr
      else usr\<lparr>notifications := ids @ notifications usr\<rparr>)"

text \<open>The documents a call added to the notification collection.\<close>

definition newNotifications :: "db \<Rightarrow> db \<Rightarrow> NotificationDoc list" where
  "newNotifications d d' = drop (length (NotificationModel d)) (NotificationModel d')"

section \<open>Votes on a question\<close>

datatype VoteType = upvote | downvote

text \<open>
  The aggregation pipeline \<open>updateOperation\<close>: one \<open>$set\<close> stage, so \<open>$upVotes\<close> and
  \<open>$downVotes\<close> in both expressions are the fields of the document before the update.
\<close>

definition updateOperation :: "VoteType \<Rightarrow> string \<Rightarrow> question \<Rightarrow> question" where
  "updateOperation type username' q =
     (if type = upvote then
        q\<lparr>upVotes :=
            (if username' \<in> set (upVotes q) then filter (\<lambda>u. u \<noteq> username') (upVotes q)
             else upVotes q @ [username']),
          downVotes :=
            (if username' \<in> set (upVotes q) then downVotes q
             else filter (\<lambda>d. d \<noteq> username') (downVotes q))\<rparr>
      else
        q\<lparr>downVotes :=
            (if username' \<in> set (downVotes q) then filter (\<lambda>d. d \<noteq> username') (downVotes q)
             else downVotes q @ [username']),
          upVotes :=
            (if username' \<in> set (downVotes q) then upVotes q
             else filter (\<lambda>u. u \<noteq> username') (upVotes q))\<rparr>)"

definition addVoteToQuestion ::
  "string \<Rightarrow> string \<Rightarrow> VoteType \<Rightarrow> db \<Rightarrow> (string + string \<times> string list \<times> string list) \<times> db" where
  "addVoteToQuestion qid' username' type d =
     (case findOne (\<lambda>q. qid q = Some qid') (QuestionModel d) of
        None \<Rightarrow> (Inl ''Question not found!'', d)
      | Some q \<Rightarrow>
          (let result = updateOperation type username' q;
               msg = (if type = upvote then
                        (if username' \<in> set (upVotes result) then ''Question upvoted successfully''
                         else ''Upvote cancelled successfully'')
                      else
                        (if username' \<in> set (downVotes result) then ''Question downvoted successfully''
                         else ''Downvote cancelled successfully''))
           in (Inr (msg, upVotes result, downVotes result),
               d\<lparr>QuestionModel :=
                   update_first (\<lambda>q. qid q = Some qid') (updateOperation type username')
                     (QuestionModel d)\<rparr>)))"

text \<open>The question a later read finds under the id.\<close>

definition questionById :: "string \<Rightarrow> db \<Rightarrow> question option" where
  "questionById qid' d = findOne (\<lambda>q. qid q = Some qid') (QuestionModel d)"

section \<open>Polls\<close>

text \<open>\<open>PollModel.findById(pollId).populate('options')\<close>.\<close>

definition findPollById :: "string \<Rightarrow> db \<Rightarrow> pollOption poll option" where
  "findPollById pollId d = map_option (populatePoll d) (findOne (\<lambda>p. pid p = pollId) (PollModel d))"

text \<open>\<open>now\<close> is the value of \<open>new Date()\<close> at the test for a closed poll.\<close>

definition addVoteToPollOption ::
  "string \<Rightarrow> string \<Rightarrow> string \<Rightarrow> int \<Rightarrow> db \<Rightarrow> (string + pollOption poll) \<times> db" where
  "addVoteToPollOption pollId optionId username' now d =
     (if pollId = [] \<or> optionId = [] \<or> username' = [] then (Inl ''Invalid input data'', d)
      else
        (case findPollById pollId d of
           None \<Rightarrow> (Inl ''Poll not found'', d)
         | Some poll \<Rightarrow>
             if isClosed poll = Some True \<or> pollDueDate poll \<le> now
             then (Inl ''Unable to vote in closed poll'', d)
             else if list_ex (\<lambda>option. username' \<in> set (usersVoted option)) (options poll)
             then (Inl ''User has already voted in this poll'', d)
             else
               (case findOne (\<lambda>op. oid op = optionId) (PollOptionModel d) of
                  None \<Rightarrow> (Inl ''Poll option not found'', d)
                | Some updatedOption \<Rightarrow>
                    (let d1 = d\<lparr>PollOptionModel :=
                                 update_first (\<lambda>op. oid op = optionId)
                                   (\<lambda>op. op\<lparr>usersVoted := addToSet username' (usersVoted op)\<rparr>)
                                   (PollOptionModel d)\<rparr>
                     in (case findPollById pollId d1 of
                           None \<Rightarrow> (Inl ''Error retrieving updated poll'', d1)
                         | Some updatedPoll \<Rightarrow> (Inr updatedPoll, d1))))))"

text \<open>
  \<open>PollModel.findOneAndUpdate({_id}, {$set: {isClosed: true}}, {new: true}).populate(...)\<close>
  for one poll of \<open>pollsToClose\<close>, then for all of them. The \<open>$set\<close> reaches the
  collection only if the schema declares \<open>isClosed\<close>; the document found is returned in
  either case.
\<close>

definition closePoll :: "string poll \<Rightarrow> db \<Rightarrow> pollOption poll option \<times> db" where
  "closePoll p d =
     (let d1 = d\<lparr>PollModel :=
                  update_first (\<lambda>x. pid x = pid p)
                    (\<lambda>x. if ''isClosed'' \<in> set pollSchema then x\<lparr>isClosed := Some True\<rparr> else x)
                    (PollModel d)\<rparr>
      in (findPollById (pid p) d1, d1))"

fun closePolls :: "string poll list \<Rightarrow> db \<Rightarrow> pollOption poll option list \<times> db" where
  "closePolls [] d = ([], d)"
| "closePolls (p # ps) d =
     (case closePoll p d of
        (r, d1) \<Rightarrow> (case closePolls ps d1 of (rs, d2) \<Rightarrow> (r # rs, d2)))"

text \<open>
  \<open>PollModel.find({pollDueDate: {$lte: new Date()}, isClosed: false})\<close>. What becomes of a
  condition on a path that the schema does not declare depends on the option
  \<open>strictQuery\<close> of the application, which is set outside these sources and is a
  parameter here: when it is on, the condition is taken out of the filter; when it is
  off, the condition goes to the collection as it is written.
\<close>

definition pollsToClose :: "bool \<Rightarrow> int \<Rightarrow> db \<Rightarrow> string poll list" where
  "pollsToClose strictQuery now d =
     filter
       (\<lambda>p. pollDueDate p \<le> now \<and>
             (if strictQuery
              then (if ''isClosed'' \<in> set pollSchema then isClosed p = Some False else True)
              else isClosed p = Some False))
       (PollModel d)"

definition closeExpiredPolls :: "bool \<Rightarrow> int \<Rightarrow> db \<Rightarrow> (string + pollOption poll list) \<times> db" where
  "closeExpiredPolls strictQuery now d =
     (case closePolls (pollsToClose strictQuery now d) d of
        (promiseClosedPolls, d1) \<Rightarrow>
          (case those promiseClosedPolls of
             None \<Rightarrow> (Inl ''Poll not found'', d1)
           | Some closedPolls \<Rightarrow> (Inr closedPolls, d1)))"

section \<open>Challenges\<close>
















section \<open>Vocabulary of the statements\<close>

text \<open>Reads of the store after a call, as a later request would make them.\<close>

definition userByName :: "string \<Rightarrow> db \<Rightarrow> user option" where
  "userByName u d = findOne (\<lambda>v. username v = u) (UserModel d)"

definition inboxOf :: "string \<Rightarrow> db \<Rightarrow> nat list option" where
  "inboxOf u d = map_option notifications (userByName u d)"



definition pollOptionById :: "string \<Rightarrow> db \<Rightarrow> pollOption option" where
  "pollOptionById i d = findOne (\<lambda>op. oid op = i) (PollOptionModel d)"

text \<open>The collection keeps the poll of that id with \<open>isClosed\<close> true.\<close>

definition storedClosed :: "string \<Rightarrow> db \<Rightarrow> bool" where
  "storedClosed i d =
     (case findOne (\<lambda>p. pid p = i) (PollModel d) of
        None \<Rightarrow> False
      | Some p \<Rightarrow> isClosed p = Some True)"

definition hasUpvoted :: "string \<Rightarrow> string \<Rightarrow> db \<Rightarrow> bool" where
  "hasUpvoted u i d = (case questionById i d of None \<Rightarrow> False | Some q \<Rightarrow> u \<in> set (upVotes q))"

definition hasDownvoted :: "string \<Rightarrow> string \<Rightarrow> db \<Rightarrow> bool" where
  "hasDownvoted u i d = (case questionById i d of None \<Rightarrow> False | Some q \<Rightarrow> u \<in> set (downVotes q))"

text \<open>The invariant of the data model: nobody is in both vote arrays of the question.\<close>

definition voteInvariant :: "string \<Rightarrow> db \<Rightarrow> bool" where
  "voteInvariant i d =
     (case questionById i d of None \<Rightarrow> True | Some q \<Rightarrow> set (upVotes q) \<inter> set (downVotes q) = {})"

definition afterVote :: "string \<Rightarrow> string \<Rightarrow> VoteType \<Rightarrow> db \<Rightarrow> db" where
  "afterVote i u t d = snd (addVoteToQuestion i u t d)"








text \<open>Sort keys that order as the two comparison functions do.\<close>

definition newestKey :: "question \<Rightarrow> int" where
  "newestKey q = - askDateTime q"

definition activeKey :: "(string \<rightharpoonup> int) \<Rightarrow> question \<Rightarrow> nat \<times> int" where
  "activeKey mp q = (case mp_get mp q of None \<Rightarrow> (1, 0) | Some d \<Rightarrow> (0, - d))"

section \<open>Example stores\<close>

definition alice :: user where
  "alice = \<lparr>uid = ''u1'', username = ''alice'', notifications = [], blockedNotifications = [],
            unlockedTitles = []\<rparr>"

definition bob :: user where
  "bob = \<lparr>uid = ''u2'', username = ''bob'', notifications = [7],
          blockedNotifications = [Comment, Answer], unlockedTitles = []\<rparr>"

definition carol :: user where
  "carol = \<lparr>uid = ''u3'', username = ''carol'', notifications = [], blockedNotifications = [],
            unlockedTitles = []\<rparr>"

definition question1 :: question where
  "question1 = \<lparr>qid = Some ''q1'', askedBy = ''alice'', askDateTime = 10, answers = [],
     views = [], upVotes = [], downVotes = [], subscribers = [''bob'', ''carol'']\<rparr>"

text \<open>A question whose asker has subscribed to it and has voted it up.\<close>

definition question2 :: question where
  "question2 = \<lparr>qid = Some ''q2'', askedBy = ''alice'', askDateTime = 20, answers = [],
     views = [], upVotes = [''alice''], downVotes = [], subscribers = [''alice'']\<rparr>"

definition db0 :: db where
  "db0 = \<lparr>QuestionModel = [question1, question2], AnswerModel = [], UserModel = [alice, bob, carol],
     CommunityModel = [], NotificationModel = [], PollModel = [], PollOptionModel = [],
     ChallengeModel = [], UserChallengeModel = []\<rparr>"

definition answerNotification :: Notification where
  "answerNotification = \<lparr>notificationType = Some Answer, isRead = Some False\<rparr>"

definition heap0 :: arrays where
  "heap0 = \<lparr>cells = (\<lambda>r. [])(0 := [question1, question2]), next_ref = 1\<rparr>"

definition answered1 :: question where
  "answered1 = \<lparr>qid = Some ''t1'', askedBy = ''alice'', askDateTime = 1,
     answers = [\<lparr>aid = ''a1'', ansBy = ''bob'', ansDateTime = 100\<rparr>],
     views = [], upVotes = [], downVotes = [], subscribers = []\<rparr>"

definition answered2 :: question where
  "answered2 = \<lparr>qid = Some ''t2'', askedBy = ''alice'', askDateTime = 2,
     answers = [\<lparr>aid = ''a2'', ansBy = ''bob'', ansDateTime = 150\<rparr>,
                \<lparr>aid = ''a3'', ansBy = ''carol'', ansDateTime = 200\<rparr>],
     views = [], upVotes = [], downVotes = [], subscribers = []\<rparr>"

definition unanswered3 :: question where
  "unanswered3 = \<lparr>qid = Some ''t3'', askedBy = ''alice'', askDateTime = 3, answers = [],
     views = [], upVotes = [], downVotes = [], subscribers = []\<rparr>"

definition unanswered4 :: question where
  "unanswered4 = \<lparr>qid = Some ''t4'', askedBy = ''alice'', askDateTime = 4, answers = [],
     views = [], upVotes = [], downVotes = [], subscribers = []\<rparr>"

definition heap1 :: arrays where
  "heap1 = \<lparr>cells = (\<lambda>r. [])(0 := [unanswered3, answered1, unanswered4, answered2]), next_ref = 1\<rparr>"

definition poll1 :: "string poll" where
  "poll1 = \<lparr>pid = ''p1'', options = [''o1'', ''o2''], createdBy = ''alice'', pollDueDate = 100,
     isClosed = Some False\<rparr>"

definition poll2 :: "string poll" where
  "poll2 = \<lparr>pid = ''p2'', options = [''o3''], createdBy = ''bob'', pollDueDate = 50,
     isClosed = Some True\<rparr>"

definition poll3 :: "string poll" where
  "poll3 = \<lparr>pid = ''p3'', options = [], createdBy = ''bob'', pollDueDate = 500,
     isClosed = Some False\<rparr>"

definition option1 :: pollOption where
  "option1 = \<lparr>oid = ''o1'', usersVoted = [''bob'']\<rparr>"

definition option2 :: pollOption where
  "option2 = \<lparr>oid = ''o2'', usersVoted = []\<rparr>"

definition option3 :: pollOption where
  "option3 = \<lparr>oid = ''o3'', usersVoted = []\<rparr>"

definition dbPolls :: db where
  "dbPolls = \<lparr>QuestionModel = [], AnswerModel = [], UserModel = [alice, bob, carol],
     CommunityModel = [], NotificationModel = [], PollModel = [poll1, poll2, poll3],
     PollOptionModel = [option1, option2, option3],
     ChallengeModel = [], UserChallengeModel = []\<rparr>"








text \<open>
  An overdue poll as \<open>PollModel.create\<close> leaves it in the collection when it is made with
  \<open>isClosed: false\<close>: the schema does not declare the path, so nothing is kept under it.
\<close>

definition poll4 :: "string poll" where
  "poll4 = \<lparr>pid = ''p4'', options = [''o2''], createdBy = ''carol'', pollDueDate = 80,
     isClosed = None\<rparr>"

definition dbPollsAsSaved :: db where
  "dbPollsAsSaved = \<lparr>QuestionModel = [], AnswerModel = [], UserModel = [alice, bob, carol],
     CommunityModel = [], NotificationModel = [], PollModel = [poll4],
     PollOptionModel = [option1, option2, option3],
     ChallengeModel = [], UserChallengeModel = []\<rparr>"




section \<open>The sort is stable and orders by the comparison function\<close>

lemma mset_js_insert: "mset (js_insert c x ys) = add_mset x (mset ys)"
  by (induction ys) auto

lemma set_js_insert: "set (js_insert c x ys) = insert x (set ys)"
  by (induction ys) auto

lemma sorted_js_insert:
  fixes k :: "'a \<Rightarrow> 'k::linorder"
  assumes "\<And>x y. (c x y < 0) = (k x < k y)"
  shows "sorted (map k ys) \<Longrightarrow> sorted (map k (js_insert c x ys))"
  using assms by (induction ys) (auto simp: set_js_insert)

lemma filter_js_insert:
  fixes k :: "'a \<Rightarrow> 'k::linorder"
  assumes "\<And>x y. (c x y < 0) = (k x < k y)"
  shows "sorted (map k ys) \<Longrightarrow>
    filter (\<lambda>y. k y = v) (js_insert c x ys) = filter (\<lambda>y. k y = v) ys @ (if k x = v then [x] else [])"
proof (induction ys)
  case Nil
  then show ?case by simp
next
  case (Cons e es)
  show ?case
  proof (cases "c x e < 0")
    case True
    then have lt: "k x < k e" using assms by simp
    have "\<forall>y\<in>set (e # es). k x < k y" using Cons.prems lt by auto
    then have "filter (\<lambda>y. k y = k x) (e # es) = []" by (auto simp: filter_empty_conv)
    then show ?thesis using True by auto
  next
    case False
    then show ?thesis using Cons by auto
  qed
qed

lemma foldl_js_insert_props:
  fixes k :: "'a \<Rightarrow> 'k::linorder"
  assumes c: "\<And>x y. (c x y < 0) = (k x < k y)"
  shows "sorted (map k acc) \<Longrightarrow>
     sorted (map k (foldl (\<lambda>p x. js_insert c x p) acc xs)) \<and>
     mset (foldl (\<lambda>p x. js_insert c x p) acc xs) = mset acc + mset xs \<and>
     (\<forall>v. filter (\<lambda>y. k y = v) (foldl (\<lambda>p x. js_insert c x p) acc xs)
        = filter (\<lambda>y. k y = v) acc @ filter (\<lambda>y. k y = v) xs)"
proof (induction xs arbitrary: acc)
  case Nil
  then show ?case by simp
next
  case (Cons x xs)
  have s: "sorted (map k (js_insert c x acc))"
    using sorted_js_insert[of c k, OF c Cons.prems] .
  show ?case
    using Cons.IH[OF s] filter_js_insert[of c k, OF c Cons.prems]
    by (simp add: mset_js_insert)
qed

lemma array_sort_sorted:
  fixes k :: "'a \<Rightarrow> 'k::linorder"
  assumes c: "\<And>x y. (c x y < 0) = (k x < k y)"
  shows "sorted (map k (array_sort c xs))"
  using foldl_js_insert_props[of c k "[]" xs, OF c] by (simp add: array_sort_def)

lemma array_sort_mset: "mset (array_sort c xs) = mset xs"
proof -
  have "mset (foldl (\<lambda>p x. js_insert c x p) acc xs) = mset acc + mset xs" for acc
    by (induction xs arbitrary: acc) (auto simp: mset_js_insert)
  then show ?thesis by (simp add: array_sort_def)
qed

lemma array_sort_stable:
  fixes k :: "'a \<Rightarrow> 'k::linorder"
  assumes c: "\<And>x y. (c x y < 0) = (k x < k y)"
  shows "filter (\<lambda>y. k y = v) (array_sort c xs) = filter (\<lambda>y. k y = v) xs"
  using foldl_js_insert_props[of c k "[]" xs, OF c] by (simp add: array_sort_def)

lemma sorted_lex:
  fixes k2 :: "'a \<Rightarrow> 'k::linorder" and k1 :: "'a \<Rightarrow> 'j::linorder"
  shows "sorted (map k2 r) \<Longrightarrow> (\<And>v. sorted (map k1 (filter (\<lambda>y. k2 y = v) r))) \<Longrightarrow>
     sorted_wrt (\<lambda>a b. k2 a < k2 b \<or> (k2 a = k2 b \<and> k1 a \<le> k1 b)) r"
proof (induction r)
  case Nil
  then show ?case by simp
next
  case (Cons a r)
  have tl: "sorted_wrt (\<lambda>a b. k2 a < k2 b \<or> (k2 a = k2 b \<and> k1 a \<le> k1 b)) r"
  proof (rule Cons.IH)
    show "sorted (map k2 r)" using Cons.prems(1) by simp
    fix v
    show "sorted (map k1 (filter (\<lambda>y. k2 y = v) r))"
      using Cons.prems(2)[of v] by (auto split: if_splits)
  qed
  have hd: "k2 a < k2 b \<or> (k2 a = k2 b \<and> k1 a \<le> k1 b)" if b: "b \<in> set r" for b
  proof (cases "k2 a = k2 b")
    case True
    have "sorted (map k1 (filter (\<lambda>y. k2 y = k2 a) (a # r)))" using Cons.prems(2) .
    then have "\<forall>y\<in>set (filter (\<lambda>y. k2 y = k2 a) r). k1 a \<le> k1 y" by simp
    then show ?thesis using b True by auto
  next
    case False
    have "k2 a \<le> k2 b" using Cons.prems(1) b by auto
    then show ?thesis using False by auto
  qed
  show ?case using tl hd by simp
qed

lemma sorted_map_filter:
  fixes k :: "'a \<Rightarrow> 'k::linorder"
  shows "sorted (map k xs) \<Longrightarrow> sorted (map k (filter P xs))"
  by (induction xs) auto

section \<open>The map of latest answer times\<close>

lemma Max_insert_max:
  "finite S \<Longrightarrow> Max (insert (max c x) S) = Max (insert c (insert (x::int) S))"
  by (cases "S = {}") (auto simp: max.assoc)

lemma fold_recordAnswerTime_other:
  "qid quest \<noteq> Some j \<Longrightarrow> fold (recordAnswerTime quest) as mp j = mp j"
  by (induction as arbitrary: mp) (auto simp: recordAnswerTime_def split: option.splits)

lemma fold_recordAnswerTime_own:
  "qid quest = Some i \<Longrightarrow>
   fold (recordAnswerTime quest) as mp i =
     (case mp i of
        None \<Rightarrow> (if as = [] then None else Some (Max (set (map ansDateTime as))))
      | Some c \<Rightarrow> Some (Max (insert c (set (map ansDateTime as)))))"
proof (induction as arbitrary: mp)
  case Nil
  then show ?case by (simp split: option.splits)
next
  case (Cons a as)
  show ?case
  proof (cases "mp i")
    case None
    then have "recordAnswerTime quest a mp i = Some (ansDateTime a)"
      using Cons.prems by (simp add: recordAnswerTime_def)
    then show ?thesis using Cons.IH[OF Cons.prems, of "recordAnswerTime quest a mp"] None
      by simp
  next
    case (Some c)
    then have "recordAnswerTime quest a mp i = Some (max c (ansDateTime a))"
      using Cons.prems by (simp add: recordAnswerTime_def max_def)
    then show ?thesis using Cons.IH[OF Cons.prems, of "recordAnswerTime quest a mp"] Some
      by (simp add: Max_insert_max)
  qed
qed

lemma getMostRecentAnswerTime_own:
  "qid quest = Some i \<Longrightarrow> mp i = None \<Longrightarrow> getMostRecentAnswerTime quest mp i = latestAnswerTime quest"
  by (simp add: getMostRecentAnswerTime_def latestAnswerTime_def fold_recordAnswerTime_own)

lemma getMostRecentAnswerTime_other:
  "qid quest \<noteq> Some j \<Longrightarrow> getMostRecentAnswerTime quest mp j = mp j"
  by (simp add: getMostRecentAnswerTime_def fold_recordAnswerTime_other)

lemma fold_getMostRecent_other:
  "Some j \<notin> qid ` set qs \<Longrightarrow> fold getMostRecentAnswerTime qs mp j = mp j"
  by (induction qs arbitrary: mp) (auto simp: getMostRecentAnswerTime_other)

lemma fold_getMostRecent_latest:
  "distinct (map qid qs) \<Longrightarrow> q \<in> set qs \<Longrightarrow> qid q = Some i \<Longrightarrow> mp i = None \<Longrightarrow>
   fold getMostRecentAnswerTime qs mp i = latestAnswerTime q"
proof (induction qs arbitrary: mp)
  case Nil
  then show ?case by simp
next
  case (Cons a qs)
  show ?case
  proof (cases "q = a")
    case True
    have "Some i \<notin> qid ` set qs" using Cons.prems True by auto
    then show ?thesis
      using True Cons.prems by (simp add: fold_getMostRecent_other getMostRecentAnswerTime_own)
  next
    case False
    then have q: "q \<in> set qs" using Cons.prems by simp
    have "qid a \<noteq> Some i" using Cons.prems q by force
    then have "getMostRecentAnswerTime a mp i = None"
      using Cons.prems by (simp add: getMostRecentAnswerTime_other)
    then show ?thesis using Cons.IH[of "getMostRecentAnswerTime a mp"] Cons.prems q by simp
  qed
qed

lemma newestCompare_key: "(newestCompare a b < 0) = (newestKey a < newestKey b)"
  by (simp add: newestCompare_def newestKey_def)

lemma activeCompare_key: "(activeCompare mp a b < 0) = (activeKey mp a < activeKey mp b)"
  by (simp add: activeCompare_def activeKey_def split: option.splits)

lemma active_sorted_keys:
  "sorted_wrt (\<lambda>a b. activeKey mp a < activeKey mp b \<or>
                     (activeKey mp a = activeKey mp b \<and> newestKey a \<le> newestKey b))
     (array_sort (activeCompare mp) (array_sort newestCompare qs))"
proof (rule sorted_lex)
  show "sorted (map (activeKey mp) (array_sort (activeCompare mp) (array_sort newestCompare qs)))"
    by (rule array_sort_sorted) (rule activeCompare_key)
  fix v
  have "filter (\<lambda>y. activeKey mp y = v) (array_sort (activeCompare mp) (array_sort newestCompare qs))
        = filter (\<lambda>y. activeKey mp y = v) (array_sort newestCompare qs)"
    by (rule array_sort_stable) (rule activeCompare_key)
  moreover have "sorted (map newestKey (array_sort newestCompare qs))"
    by (rule array_sort_sorted) (rule newestCompare_key)
  ultimately show "sorted (map newestKey (filter (\<lambda>y. activeKey mp y = v)
      (array_sort (activeCompare mp) (array_sort newestCompare qs))))"
    by (simp add: sorted_map_filter)
qed

lemma set_array_sort: "set (array_sort c xs) = set xs"
  using array_sort_mset[of c xs] by (metis set_mset_mset)

lemma active_sorted:
  assumes ids: "list_all (\<lambda>q. qid q \<noteq> None) qs" and dist: "distinct (map qid qs)"
  shows "sorted_wrt activeBefore
     (array_sort (activeCompare (fold getMostRecentAnswerTime qs Map.empty)) (array_sort newestCompare qs))"
proof -
  let ?mp = "fold getMostRecentAnswerTime qs Map.empty"
  let ?r = "array_sort (activeCompare ?mp) (array_sort newestCompare qs)"
  have get: "mp_get ?mp q = latestAnswerTime q" if qin: "q \<in> set qs" for q
  proof -
    obtain i where i: "qid q = Some i" using ids qin by (auto simp: list_all_iff)
    show ?thesis using fold_getMostRecent_latest[OF dist qin i, of Map.empty] i
      by (simp add: mp_get_def)
  qed
  have set: "set ?r = set qs" by (simp add: set_array_sort)
  show ?thesis
  proof (rule sorted_wrt_mono_rel[OF _ active_sorted_keys])
    fix a b
    assume a: "a \<in> set ?r" and b: "b \<in> set ?r"
      and k: "activeKey ?mp a < activeKey ?mp b \<or>
              (activeKey ?mp a = activeKey ?mp b \<and> newestKey a \<le> newestKey b)"
    have "mp_get ?mp a = latestAnswerTime a" "mp_get ?mp b = latestAnswerTime b"
      using a b set get by auto
    then show "activeBefore a b"
      using k by (auto simp: activeKey_def activeBefore_def newestKey_def split: option.splits)
  qed
qed

section \<open>The store: first match, fresh ids, set insertion\<close>

lemma fold_max_ge: "(a::nat) \<le> fold max ids a"
  by (induction ids arbitrary: a) (auto intro: order_trans[OF max.cobounded2])

lemma fold_max_mem: "x \<in> set ids \<Longrightarrow> (x::nat) \<le> fold max ids a"
proof (induction ids arbitrary: a)
  case Nil
  then show ?case by simp
next
  case (Cons y ids)
  show ?case
  proof (cases "x = y")
    case True
    have "max y a \<le> fold max ids (max y a)" by (rule fold_max_ge)
    then show ?thesis using True by simp
  next
    case False
    then show ?thesis using Cons by simp
  qed
qed

lemma fresh_id_notin: "fresh_id ids \<notin> set ids"
  using fold_max_mem[of "fresh_id ids" ids 0] by (auto simp: fresh_id_def)

lemma find_update_first:
  assumes "\<And>x. p (f x) = p x"
  shows "find p (update_first p f xs) = map_option f (find p xs)"
  using assms by (induction xs) auto

lemma find_update_first_other:
  assumes "\<And>x. p (f x) = p x" and "\<And>x. q x \<Longrightarrow> \<not> p x"
  shows "find p (update_first q f xs) = find p xs"
  using assms by (induction xs) auto












lemma distinct_count_list_1: "distinct xs \<Longrightarrow> x \<in> set xs \<Longrightarrow> count_list xs x = 1"
  by (induction xs) auto

lemma list_ex_zip_fst:
  "length xs = length ys \<Longrightarrow> list_ex (\<lambda>(n, x). P n) (zip xs ys) = list_ex P xs"
  by (induction xs ys rule: list_induct2) auto

section \<open>Fan-out: what the two loops of notifyUsers do\<close>

lemma saveNotifications_props:
  "saveNotifications us n d = (rs, d') \<Longrightarrow>
     length rs = length us \<and>
     d' = d\<lparr>NotificationModel := NotificationModel d @ rs\<rparr> \<and>
     list_all (\<lambda>r. notificationType r = notificationType n \<and> isRead r = isRead n) rs \<and>
     distinct (map nid rs) \<and>
     set (map nid rs) \<inter> set (map nid (NotificationModel d)) = {}"
proof (induction us arbitrary: d rs d')
  case Nil
  then show ?case by simp
next
  case (Cons u us)
  obtain r d1 where s1: "saveNotification n d = (r, d1)" by (cases "saveNotification n d")
  obtain rs' d2 where s2: "saveNotifications us n d1 = (rs', d2)"
    by (cases "saveNotifications us n d1")
  have eq: "rs = r # rs'" "d' = d2" using Cons.prems s1 s2 by auto
  have r: "r = \<lparr>notificationType = notificationType n, isRead = isRead n,
                nid = fresh_id (map nid (NotificationModel d))\<rparr>"
    and d1: "d1 = d\<lparr>NotificationModel := NotificationModel d @ [r]\<rparr>"
    using s1 by (auto simp: saveNotification_def Let_def)
  have fresh: "nid r \<notin> set (map nid (NotificationModel d))"
    using r fresh_id_notin[of "map nid (NotificationModel d)"] by simp
  note IH = Cons.IH[OF s2]
  have disj: "set (map nid rs') \<inter> set (map nid (NotificationModel d1)) = {}" using IH by simp
  have "nid r \<notin> set (map nid rs')" using disj d1 by auto
  moreover have "set (map nid rs') \<inter> set (map nid (NotificationModel d)) = {}"
    using disj d1 by auto
  ultimately show ?case using IH eq r d1 fresh by auto
qed

lemma deliver_nothing: "map_option (deliver t []) r = r"
  by (cases r) (auto simp: deliver_def)

lemma deliver_deliver: "deliver t ys (deliver t xs usr) = deliver t (ys @ xs) usr"
  by (simp add: deliver_def)

lemma addNotificationToUser_step:
  assumes "addNotificationToUser a x d = (resp, d1)"
    and "notificationType x = Some t" and "isRead x \<noteq> None"
  shows "NotificationModel d1 = NotificationModel d"
    and "find (\<lambda>v. username v = u) (UserModel d1) =
           map_option (deliver t (if u = a then [nid x] else []))
             (find (\<lambda>v. username v = u) (UserModel d))"
    and "isl resp = (find (\<lambda>v. username v = a) (UserModel d) = None)"
proof -
  show "NotificationModel d1 = NotificationModel d"
    using assms by (auto simp: addNotificationToUser_def findOne_def split: option.splits if_splits)
  show "isl resp = (find (\<lambda>v. username v = a) (UserModel d) = None)"
    using assms by (auto simp: addNotificationToUser_def findOne_def split: option.splits if_splits)
  show "find (\<lambda>v. username v = u) (UserModel d1) =
           map_option (deliver t (if u = a then [nid x] else []))
             (find (\<lambda>v. username v = u) (UserModel d))"
  proof (cases "find (\<lambda>v. username v = a) (UserModel d)")
    case None
    then have "d1 = d" using assms by (auto simp: addNotificationToUser_def findOne_def)
    then show ?thesis using None by (auto simp: deliver_nothing)
  next
    case (Some usr)
    show ?thesis
    proof (cases "t \<in> set (blockedNotifications usr)")
      case True
      then have d1: "d1 = d" using assms Some by (auto simp: addNotificationToUser_def findOne_def)
      show ?thesis
      proof (cases "u = a")
        case True
        then show ?thesis using d1 Some \<open>t \<in> set (blockedNotifications usr)\<close>
          by (simp add: deliver_def)
      next
        case False
        then show ?thesis using d1 by (simp add: deliver_nothing)
      qed
    next
      case False
      then have d1: "UserModel d1 = update_first (\<lambda>v. username v = a)
              (\<lambda>v. v\<lparr>notifications := nid x # notifications v\<rparr>) (UserModel d)"
        using assms Some by (auto simp: addNotificationToUser_def findOne_def)
      show ?thesis
      proof (cases "u = a")
        case True
        have "find (\<lambda>v. username v = a) (UserModel d1) =
              map_option (\<lambda>v. v\<lparr>notifications := nid x # notifications v\<rparr>)
                (find (\<lambda>v. username v = a) (UserModel d))"
          unfolding d1 by (rule find_update_first) simp
        then show ?thesis using True Some False by (simp add: deliver_def)
      next
        case neq: False
        have "find (\<lambda>v. username v = u) (UserModel d1) = find (\<lambda>v. username v = u) (UserModel d)"
          unfolding d1 using neq by (intro find_update_first_other) auto
        then show ?thesis using neq by (simp add: deliver_nothing)
      qed
    qed
  qed
qed

lemma addNotificationsToUsers_props:
  "addNotificationsToUsers pairs d = (resps, d') \<Longrightarrow>
   list_all (\<lambda>(n, x). notificationType x = Some t \<and> isRead x \<noteq> None) pairs \<Longrightarrow>
     NotificationModel d' = NotificationModel d \<and>
     (\<forall>u. find (\<lambda>v. username v = u) (UserModel d') =
           map_option (deliver t (rev (map (nid \<circ> snd) (filter (\<lambda>(n, x). n = u) pairs))))
             (find (\<lambda>v. username v = u) (UserModel d))) \<and>
     list_ex isl resps = list_ex (\<lambda>(n, x). find (\<lambda>v. username v = n) (UserModel d) = None) pairs"
proof (induction pairs arbitrary: d resps d')
  case Nil
  then show ?case by (simp add: deliver_nothing)
next
  case (Cons p pairs)
  obtain a x where p: "p = (a, x)" by (cases p)
  obtain resp d1 where s1: "addNotificationToUser a x d = (resp, d1)"
    by (cases "addNotificationToUser a x d")
  obtain resps' d2 where s2: "addNotificationsToUsers pairs d1 = (resps', d2)"
    by (cases "addNotificationsToUsers pairs d1")
  have eq: "resps = resp # resps'" "d' = d2" using Cons.prems(1) p s1 s2 by auto
  have valid: "notificationType x = Some t" "isRead x \<noteq> None"
    and rest: "list_all (\<lambda>(n, x). notificationType x = Some t \<and> isRead x \<noteq> None) pairs"
    using Cons.prems(2) p by auto
  note step = addNotificationToUser_step[OF s1 valid]
  note IH = Cons.IH[OF s2 rest]
  have frame: "NotificationModel d' = NotificationModel d"
    using IH step(1) eq by simp
  have users: "find (\<lambda>v. username v = u) (UserModel d') =
           map_option (deliver t (rev (map (nid \<circ> snd) (filter (\<lambda>(n, x). n = u) (p # pairs)))))
             (find (\<lambda>v. username v = u) (UserModel d))" for u
  proof -
    have "find (\<lambda>v. username v = u) (UserModel d2) =
           map_option (deliver t (rev (map (nid \<circ> snd) (filter (\<lambda>(n, x). n = u) pairs))))
             (find (\<lambda>v. username v = u) (UserModel d1))" using IH by blast
    then show ?thesis using step(2)[of u] eq p
      by (cases "find (\<lambda>v. username v = u) (UserModel d)") (auto simp: deliver_deliver)
  qed
  have none_iff: "(find (\<lambda>v. username v = n) (UserModel d1) = None) =
                  (find (\<lambda>v. username v = n) (UserModel d) = None)" for n
    using step(2)[of n] by simp
  have errs: "list_ex isl resps =
      list_ex (\<lambda>(n, x). find (\<lambda>v. username v = n) (UserModel d) = None) (p # pairs)"
  proof -
    have "list_ex isl resps' =
        list_ex (\<lambda>(n, x). find (\<lambda>v. username v = n) (UserModel d1) = None) pairs"
      using IH by blast
    then show ?thesis using step(3) eq p none_iff by simp
  qed
  show ?case using frame users errs by blast
qed

lemma length_notifsFor:
  "length names = length created \<Longrightarrow> length (notifsFor u names created) = count_list names u"
  unfolding notifsFor_def
  by (induction names created rule: list_induct2) auto

lemma notifyUsers_success:
  assumes "notifyUsers (Some i) n d = (Inr names, d')"
  shows "usersToNotify i (notificationType n) d = Inr names"
    and "names \<noteq> []"
    and "\<exists>rs d1 resps. saveNotifications names n d = (rs, d1) \<and>
           addNotificationsToUsers (zip names rs) d1 = (resps, d') \<and> \<not> list_ex isl resps"
proof -
  from assms have *: "i \<noteq> []" "usersToNotify i (notificationType n) d = Inr names \<and> names \<noteq> []"
    by (auto simp: notifyUsers_def split: sum.splits if_splits prod.splits)
  show "usersToNotify i (notificationType n) d = Inr names" "names \<noteq> []" using * by auto
  show "\<exists>rs d1 resps. saveNotifications names n d = (rs, d1) \<and>
           addNotificationsToUsers (zip names rs) d1 = (resps, d') \<and> \<not> list_ex isl resps"
    using assms * by (auto simp: notifyUsers_def split: sum.splits if_splits prod.splits)
qed

lemma notifyUsers_effect:
  assumes ok: "notifyUsers (Some i) n d = (Inr names, d')" and t: "notificationType n = Some t"
  shows "NotificationModel d' = NotificationModel d @ newNotifications d d'"
    and "length (newNotifications d d') = length names"
    and "distinct (map nid (newNotifications d d'))"
    and "set (map nid (newNotifications d d')) \<inter> set (map nid (NotificationModel d)) = {}"
    and "userByName u d' =
           map_option (deliver t (rev (notifsFor u names (newNotifications d d')))) (userByName u d)"
proof -
  obtain rs d1 resps where s: "saveNotifications names n d = (rs, d1)"
    and a: "addNotificationsToUsers (zip names rs) d1 = (resps, d')" and e: "\<not> list_ex isl resps"
    using notifyUsers_success(3)[OF ok] by blast
  note sp = saveNotifications_props[OF s]
  have nr: "isRead n \<noteq> None"
  proof
    assume none: "isRead n = None"
    obtain u us where names: "names = u # us" using notifyUsers_success(2)[OF ok] by (cases names) auto
    obtain r rs' where rs: "rs = r # rs'" using sp names by (cases rs) auto
    have "isRead r = None" using sp rs none by simp
    then have "isl (fst (addNotificationToUser u r d1))"
      by (auto simp: addNotificationToUser_def split: option.splits)
    then show False using a e names rs by (auto split: prod.splits)
  qed
  have valid: "list_all (\<lambda>(n, x). notificationType x = Some t \<and> isRead x \<noteq> None) (zip names rs)"
    using sp t nr by (auto simp: list_all_iff dest!: set_zip_rightD)
  note ap = addNotificationsToUsers_props[OF a valid]
  have nm: "NotificationModel d' = NotificationModel d @ rs" using ap sp by simp
  then have new: "newNotifications d d' = rs" by (simp add: newNotifications_def)
  show "NotificationModel d' = NotificationModel d @ newNotifications d d'" using nm new by simp
  show "length (newNotifications d d') = length names" using new sp by simp
  show "distinct (map nid (newNotifications d d'))" using new sp by simp
  show "set (map nid (newNotifications d d')) \<inter> set (map nid (NotificationModel d)) = {}"
    using new sp by simp
  have um: "UserModel d1 = UserModel d" using sp by simp
  show "userByName u d' =
           map_option (deliver t (rev (notifsFor u names (newNotifications d d')))) (userByName u d)"
    using ap um new by (simp add: userByName_def findOne_def notifsFor_def)
qed

section \<open>Votes: the update keeps the two arrays apart\<close>


lemma updateOperation_qid: "qid (updateOperation t u q) = qid q"
  by (simp add: updateOperation_def)

lemma questionById_addVote:
  "questionById i (snd (addVoteToQuestion i u t d)) = map_option (updateOperation t u) (questionById i d)"
proof (cases "questionById i d")
  case None
  then show ?thesis by (simp add: addVoteToQuestion_def questionById_def)
next
  case (Some q)
  have "find (\<lambda>q. qid q = Some i) (update_first (\<lambda>q. qid q = Some i) (updateOperation t u) (QuestionModel d))
        = map_option (updateOperation t u) (find (\<lambda>q. qid q = Some i) (QuestionModel d))"
    by (rule find_update_first) (simp add: updateOperation_qid)
  then show ?thesis using Some
    by (simp add: addVoteToQuestion_def questionById_def findOne_def Let_def)
qed

lemma updateOperation_inv:
  "set (upVotes q) \<inter> set (downVotes q) = {} \<Longrightarrow>
   set (upVotes (updateOperation t u q)) \<inter> set (downVotes (updateOperation t u q)) = {}"
  by (auto simp: updateOperation_def)

lemma upvote_twice:
  "u \<notin> set (upVotes q) \<Longrightarrow>
   u \<notin> set (upVotes (updateOperation upvote u (updateOperation upvote u q))) \<and>
   u \<notin> set (downVotes (updateOperation upvote u (updateOperation upvote u q)))"
  by (auto simp: updateOperation_def)

lemma upvote_once:
  "u \<notin> set (upVotes q) \<Longrightarrow>
   u \<in> set (upVotes (updateOperation upvote u q)) \<and>
   u \<notin> set (downVotes (updateOperation upvote u q))"
  by (auto simp: updateOperation_def)

lemma other_voters:
  "v \<noteq> u \<Longrightarrow> (v \<in> set (upVotes (updateOperation t u q))) = (v \<in> set (upVotes q)) \<and>
    (v \<in> set (downVotes (updateOperation t u q))) = (v \<in> set (downVotes q))"
  by (auto simp: updateOperation_def)

lemma upvote_then_downvote:
  "set (upVotes q) \<inter> set (downVotes q) = {} \<Longrightarrow> u \<notin> set (upVotes (updateOperation downvote u (updateOperation upvote u q))) \<and>
   u \<in> set (downVotes (updateOperation downvote u (updateOperation upvote u q)))"
  by (auto simp: updateOperation_def)


section \<open>Polls: what the schema lets through\<close>

lemma isClosed_undeclared: "''isClosed'' \<notin> set pollSchema"
  by (simp add: pollSchema_def)

lemma findPollById_isClosed: "findPollById i d = Some poll \<Longrightarrow> isClosed poll = None"
  by (auto simp: findPollById_def populatePoll_def isClosed_undeclared)

lemma update_first_same: "update_first p (\<lambda>x. x) xs = xs"
  by (induction xs) auto

lemma closePoll_reads: "closePoll p d = (findPollById (pid p) d, d)"
  by (simp add: closePoll_def isClosed_undeclared update_first_same)

lemma closePolls_reads: "closePolls ps d = (map (\<lambda>p. findPollById (pid p) d) ps, d)"
  by (induction ps) (simp_all add: closePoll_reads)

lemma those_Some_map: "those rs = Some xs \<Longrightarrow> rs = map Some xs"
proof (induction rs arbitrary: xs)
  case Nil
  then show ?case by simp
next
  case (Cons r rs)
  show ?case
  proof (cases r)
    case None
    then show ?thesis using Cons.prems by simp
  next
    case (Some a)
    then obtain z where z: "those rs = Some z" and xs: "xs = a # z"
      using Cons.prems by (auto split: option.splits)
    show ?thesis using Cons.IH[OF z] xs Some by simp
  qed
qed

text \<open>
  Whatever the collection holds and whatever \<open>strictQuery\<close> is, closeExpiredPolls leaves
  the collection as it was, and no poll that it returns reads \<open>isClosed\<close> true.
\<close>

lemma closeExpiredPolls_store: "snd (closeExpiredPolls strictQuery now d) = d"
  by (simp add: closeExpiredPolls_def closePolls_reads split: option.splits)

lemma closeExpiredPolls_returned:
  assumes "fst (closeExpiredPolls strictQuery now d) = Inr closedPolls"
    and "poll \<in> set closedPolls"
  shows "isClosed poll = None"
proof -
  have th: "those (map (\<lambda>p. findPollById (pid p) d) (pollsToClose strictQuery now d))
      = Some closedPolls"
    using assms(1) by (simp add: closeExpiredPolls_def closePolls_reads split: option.splits)
  have "Some poll \<in> set (map Some closedPolls)" using assms(2) by simp
  then have "Some poll \<in> set (map (\<lambda>p. findPollById (pid p) d) (pollsToClose strictQuery now d))"
    using those_Some_map[OF th] by simp
  then have "Some poll \<in> (\<lambda>p. findPollById (pid p) d) ` set (pollsToClose strictQuery now d)"
    by simp
  then have "\<exists>p::string poll. findPollById (pid p) d = Some poll" by (auto simp: image_iff)
  then show ?thesis by (blast intro: findPollById_isClosed)
qed


text \<open>
  The vote reads the same document: poll p2 is kept with isClosed true and is not due at
  time 10, and the vote of carol for its option is taken.
\<close>

lemma addVoteToPollOption_on_kept_flag:
  "storedClosed ''p2'' dbPolls \<and> pollDueDate poll2 = 50 \<and>
   fst (addVoteToPollOption ''p2'' ''o3'' ''carol'' 10 dbPolls) =
     Inr \<lparr>pid = ''p2'', options = [option3\<lparr>usersVoted := [''carol'']\<rparr>], createdBy = ''bob'',
         pollDueDate = 50, isClosed = None\<rparr>"
  by code_simp


section \<open>Challenges: the records to update and their effect on the store\<close>




















section \<open>Notification fan-out\<close>

text \<open>
  Claim C1, as amended. A successful fan-out of type Answer for the question with asker
  \<open>a\<close> and subscribers \<open>S\<close> returns the list \<open>a # S\<close>, whose elements are exactly
  \<open>{a} \<union> S\<close>; it adds one notification document per position of that list, each with an
  id that is new to the collection and differs from the others; a recipient who has not
  blocked the type finds in front of their inbox the documents made at their positions,
  as many as the name occurs in the list. When the asker is no subscriber and no
  subscriber is listed twice, that is exactly one per recipient.
\<close>

theorem notifyUsers_answer_fanout:
  assumes t: "notificationType n = Some Answer"
    and q: "questionById i d = Some quest"
    and ok: "notifyUsers (Some i) n d = (Inr names, d')"
  shows "names = askedBy quest # subscribers quest \<and>
         set names = insert (askedBy quest) (set (subscribers quest)) \<and>
         NotificationModel d' = NotificationModel d @ newNotifications d d' \<and>
         length (newNotifications d d') = length names \<and>
         distinct (map nid (newNotifications d d')) \<and>
         set (map nid (newNotifications d d')) \<inter> set (map nid (NotificationModel d)) = {} \<and>
         (\<forall>u. userByName u d' =
               map_option (deliver Answer (rev (notifsFor u names (newNotifications d d'))))
                 (userByName u d)) \<and>
         (\<forall>u. length (notifsFor u names (newNotifications d d')) = count_list names u) \<and>
         (askedBy quest \<notin> set (subscribers quest) \<and> distinct (subscribers quest) \<longrightarrow>
            (\<forall>u \<in> set names. count_list names u = 1))"
proof -
  have names: "names = askedBy quest # subscribers quest"
    using notifyUsers_success(1)[OF ok] t q
    by (simp add: usersToNotify_def usersToNotifyOnNewAnswer_def questionById_def)
  note eff = notifyUsers_effect[OF ok t]
  have cnt: "length (notifsFor u names (newNotifications d d')) = count_list names u" for u
    using eff(2) by (simp add: length_notifsFor)
  have once: "count_list names u = 1"
    if "askedBy quest \<notin> set (subscribers quest)" "distinct (subscribers quest)" "u \<in> set names" for u
  proof -
    have "distinct names" using that names by simp
    then show ?thesis using that(3) by (rule distinct_count_list_1)
  qed
  show ?thesis using names eff cnt once by auto
qed

theorem notifyUsers_answer_fanout_witness:
  "notificationType answerNotification = Some Answer \<and>
   questionById ''q1'' db0 = Some question1 \<and>
   fst (notifyUsers (Some ''q1'') answerNotification db0) = Inr [''alice'', ''bob'', ''carol''] \<and>
   length (newNotifications db0 (snd (notifyUsers (Some ''q1'') answerNotification db0))) = 3 \<and>
   count_list [''alice'', ''bob'', ''carol''] ''carol'' = 1"
proof -
  have h1: "notificationType answerNotification = Some Answer" by code_simp
  have h2: "questionById ''q1'' db0 = Some question1" by code_simp
  have r: "fst (notifyUsers (Some ''q1'') answerNotification db0) = Inr [''alice'', ''bob'', ''carol'']"
    by code_simp
  have h3: "notifyUsers (Some ''q1'') answerNotification db0 =
      (Inr [''alice'', ''bob'', ''carol''], snd (notifyUsers (Some ''q1'') answerNotification db0))"
    using r by (simp add: prod_eq_iff)
  have s: "askedBy question1 \<notin> set (subscribers question1) \<and> distinct (subscribers question1)"
    by code_simp
  note th = notifyUsers_answer_fanout[OF h1 h2 h3]
  have "length (newNotifications db0 (snd (notifyUsers (Some ''q1'') answerNotification db0))) =
        length [''alice'', ''bob'', ''carol'']"
    using th by blast
  moreover have "askedBy question1 \<notin> set (subscribers question1) \<and> distinct (subscribers question1)
      \<longrightarrow> (\<forall>u \<in> set [''alice'', ''bob'', ''carol''].
             count_list [''alice'', ''bob'', ''carol''] u = 1)"
    using th by blast
  then have "count_list [''alice'', ''bob'', ''carol''] ''carol'' = 1"
    using s by (elim impE) (assumption, drule bspec[of _ _ "''carol''"], simp_all)
  ultimately show ?thesis using h1 h2 r by simp
qed

text \<open>
  The claim as stated fails where the asker has subscribed to their own question: the
  name is resolved twice, two documents are made for it and both reach the inbox.
\<close>

theorem notifyUsers_answer_fanout_counterexample:
  "questionById ''q2'' db0 = Some question2 \<and>
   askedBy question2 = ''alice'' \<and> subscribers question2 = [''alice''] \<and>
   inboxOf ''alice'' db0 = Some [] \<and>
   fst (notifyUsers (Some ''q2'') answerNotification db0) = Inr [''alice'', ''alice''] \<and>
   inboxOf ''alice'' (snd (notifyUsers (Some ''q2'') answerNotification db0)) = Some [2, 1]"
  by code_simp

text \<open>
  Claim C2. A recipient who has blocked the type of the notification keeps the user
  document they had, inbox included; the fan-out still adds one document per resolved
  name to the notification collection, so at least one new document, with a new id, was
  made at a position of that recipient; and the returned list of names is the resolved
  list, the recipient included.
\<close>

theorem notifyUsers_blocked_recipient:
  assumes ok: "notifyUsers (Some i) n d = (Inr names, d')"
    and rs: "usersToNotify i (notificationType n) d = Inr rs" and u: "u \<in> set rs"
    and t: "notificationType n = Some t"
    and usr: "userByName u d = Some usr"
    and blocked: "t \<in> set (blockedNotifications usr)"
  shows "userByName u d' = Some usr \<and>
         inboxOf u d' = inboxOf u d \<and>
         names = rs \<and> u \<in> set names \<and>
         NotificationModel d' = NotificationModel d @ newNotifications d d' \<and>
         length (newNotifications d d') = length names \<and>
         notifsFor u names (newNotifications d d') \<noteq> [] \<and>
         set (notifsFor u names (newNotifications d d')) \<subseteq> set (map nid (NotificationModel d')) \<and>
         set (notifsFor u names (newNotifications d d')) \<inter> set (map nid (NotificationModel d)) = {}"
proof -
  note eff = notifyUsers_effect[OF ok t]
  have names: "names = rs" using notifyUsers_success(1)[OF ok] rs by simp
  have A: "userByName u d' = Some usr"
    using eff(5)[of u] usr blocked by (simp add: deliver_def)
  then have A': "inboxOf u d' = inboxOf u d" using usr by (simp add: inboxOf_def)
  have "length (notifsFor u names (newNotifications d d')) = count_list names u"
    using eff(2) by (simp add: length_notifsFor)
  moreover have "count_list names u \<noteq> 0" using u names by (simp add: count_list_0_iff)
  ultimately have B: "notifsFor u names (newNotifications d d') \<noteq> []" by auto
  have sub: "set (notifsFor u names (newNotifications d d')) \<subseteq> set (map nid (newNotifications d d'))"
    unfolding notifsFor_def by (auto dest: set_zip_rightD)
  have C: "set (notifsFor u names (newNotifications d d')) \<subseteq> set (map nid (NotificationModel d'))"
  proof -
    have "set (map nid (newNotifications d d')) \<subseteq> set (map nid (NotificationModel d'))"
      using eff(1) by (metis map_append set_append Un_upper2)
    then show ?thesis using sub by blast
  qed
  have D: "set (notifsFor u names (newNotifications d d')) \<inter> set (map nid (NotificationModel d)) = {}"
    using sub eff(4) by blast
  show ?thesis using A A' B C D names u eff(1,2) by simp
qed

theorem notifyUsers_blocked_recipient_witness:
  "fst (notifyUsers (Some ''q1'') answerNotification db0) = Inr [''alice'', ''bob'', ''carol''] \<and>
   userByName ''bob'' db0 = Some bob \<and> Answer \<in> set (blockedNotifications bob) \<and>
   inboxOf ''bob'' (snd (notifyUsers (Some ''q1'') answerNotification db0)) = Some [7] \<and>
   length (newNotifications db0 (snd (notifyUsers (Some ''q1'') answerNotification db0))) = 3"
proof -
  have r: "fst (notifyUsers (Some ''q1'') answerNotification db0) = Inr [''alice'', ''bob'', ''carol'']"
    by code_simp
  have h1: "notifyUsers (Some ''q1'') answerNotification db0 =
      (Inr [''alice'', ''bob'', ''carol''], snd (notifyUsers (Some ''q1'') answerNotification db0))"
    using r by (simp add: prod_eq_iff)
  have h2: "usersToNotify ''q1'' (notificationType answerNotification) db0
      = Inr [''alice'', ''bob'', ''carol'']" by code_simp
  have h3: "''bob'' \<in> set [''alice'', ''bob'', ''carol'']" by simp
  have h4: "notificationType answerNotification = Some Answer" by code_simp
  have h5: "userByName ''bob'' db0 = Some bob" by code_simp
  have h6: "Answer \<in> set (blockedNotifications bob)" by code_simp
  have i0: "inboxOf ''bob'' db0 = Some [7]" by code_simp
  note th = notifyUsers_blocked_recipient[OF h1 h2 h3 h4 h5 h6]
  have "inboxOf ''bob'' (snd (notifyUsers (Some ''q1'') answerNotification db0)) = Some [7]"
    using th i0 by simp
  moreover have "length (newNotifications db0 (snd (notifyUsers (Some ''q1'') answerNotification db0)))
      = length [''alice'', ''bob'', ''carol'']"
    using th by blast
  ultimately show ?thesis using r h5 h6 by simp
qed

section \<open>Votes on a question\<close>

text \<open>
  Claim C3, as amended. On a question of the store on which nobody is in both vote
  arrays, a vote of either type by any user leaves nobody in both. For a user who is not
  in upVotes, one upvote puts them in upVotes only and a second upvote leaves them in
  neither array. An upvote followed by a downvote leaves the user in downVotes only. For
  a user who is already in upVotes the first upvote cancels the vote and the second
  restores it. A vote changes the membership of no other user.
\<close>

theorem addVoteToQuestion_votes:
  assumes q: "questionById i d \<noteq> None" and inv: "voteInvariant i d"
  shows "voteInvariant i (afterVote i u t d) \<and>
         (\<not> hasUpvoted u i d \<longrightarrow>
            hasUpvoted u i (afterVote i u upvote d) \<and>
            \<not> hasDownvoted u i (afterVote i u upvote d) \<and>
            \<not> hasUpvoted u i (afterVote i u upvote (afterVote i u upvote d)) \<and>
            \<not> hasDownvoted u i (afterVote i u upvote (afterVote i u upvote d))) \<and>
         \<not> hasUpvoted u i (afterVote i u downvote (afterVote i u upvote d)) \<and>
         hasDownvoted u i (afterVote i u downvote (afterVote i u upvote d)) \<and>
         (hasUpvoted u i d \<longrightarrow>
            \<not> hasUpvoted u i (afterVote i u upvote d) \<and>
            hasUpvoted u i (afterVote i u upvote (afterVote i u upvote d))) \<and>
         (\<forall>v. v \<noteq> u \<longrightarrow>
            hasUpvoted v i (afterVote i u t d) = hasUpvoted v i d \<and>
            hasDownvoted v i (afterVote i u t d) = hasDownvoted v i d)"
proof -
  obtain q0 where q0: "questionById i d = Some q0" using q by auto
  have i0: "set (upVotes q0) \<inter> set (downVotes q0) = {}" using inv q0 by (simp add: voteInvariant_def)
  have a1: "questionById i (afterVote i u t' d0) = map_option (updateOperation t' u) (questionById i d0)"
    for t' d0
    unfolding afterVote_def by (rule questionById_addVote)
  have main: "voteInvariant i (afterVote i u t d) \<and>
         (\<not> hasUpvoted u i d \<longrightarrow>
            hasUpvoted u i (afterVote i u upvote d) \<and>
            \<not> hasDownvoted u i (afterVote i u upvote d) \<and>
            \<not> hasUpvoted u i (afterVote i u upvote (afterVote i u upvote d)) \<and>
            \<not> hasDownvoted u i (afterVote i u upvote (afterVote i u upvote d))) \<and>
         \<not> hasUpvoted u i (afterVote i u downvote (afterVote i u upvote d)) \<and>
         hasDownvoted u i (afterVote i u downvote (afterVote i u upvote d)) \<and>
         (hasUpvoted u i d \<longrightarrow>
            \<not> hasUpvoted u i (afterVote i u upvote d) \<and>
            hasUpvoted u i (afterVote i u upvote (afterVote i u upvote d)))"
    using q0 updateOperation_inv[OF i0, of t u] upvote_twice[of u q0] upvote_once[of u q0]
      upvote_then_downvote[OF i0, of u]
    by (auto simp: voteInvariant_def hasUpvoted_def hasDownvoted_def a1 updateOperation_def)
  have rest: "hasUpvoted v i (afterVote i u t d) = hasUpvoted v i d \<and>
      hasDownvoted v i (afterVote i u t d) = hasDownvoted v i d" if "v \<noteq> u" for v
    using q0 other_voters[OF that, of t q0] by (simp add: hasUpvoted_def hasDownvoted_def a1)
  show ?thesis using main rest by blast
qed

theorem addVoteToQuestion_votes_witness:
  "questionById ''q1'' db0 \<noteq> None \<and> voteInvariant ''q1'' db0 \<and> \<not> hasUpvoted ''bob'' ''q1'' db0 \<and>
   hasUpvoted ''bob'' ''q1'' (afterVote ''q1'' ''bob'' upvote db0) \<and>
   \<not> hasUpvoted ''bob'' ''q1'' (afterVote ''q1'' ''bob'' upvote (afterVote ''q1'' ''bob'' upvote db0)) \<and>
   hasDownvoted ''bob'' ''q1'' (afterVote ''q1'' ''bob'' downvote (afterVote ''q1'' ''bob'' upvote db0))"
proof -
  have h1: "questionById ''q1'' db0 \<noteq> None" by code_simp
  have h2: "voteInvariant ''q1'' db0" by code_simp
  have h3: "\<not> hasUpvoted ''bob'' ''q1'' db0" by code_simp
  show ?thesis
    using addVoteToQuestion_votes[OF h1 h2, of "''bob''" upvote] h1 h2 h3 by blast
qed

text \<open>
  The claim as stated fails for a user who has already voted the question up: the
  invariant holds, and after two more upvotes the user is in upVotes.
\<close>

theorem addVoteToQuestion_votes_counterexample:
  "questionById ''q2'' db0 = Some question2 \<and> voteInvariant ''q2'' db0 \<and>
   hasUpvoted ''alice'' ''q2'' db0 \<and>
   hasUpvoted ''alice'' ''q2''
     (afterVote ''q2'' ''alice'' upvote (afterVote ''q2'' ''alice'' upvote db0))"
  by code_simp

section \<open>Polls\<close>

text \<open>
  Claim C4, as amended. For a poll that the collection does not keep with isClosed true,
  the vote returns an error exactly when one of pollId, optionId and username is empty,
  or the poll does not exist, or its due date is not after now, or the username is in
  usersVoted of any option of the poll, or the target option does not exist. An error
  leaves the store as it was. Otherwise the store changes in the target option only,
  whose usersVoted gets the username unless it is there already, and the value returned
  is the poll as a new populated read finds it. The statement says nothing of a vote on
  a poll that is kept with isClosed true.
\<close>

theorem addVoteToPollOption_result:
  assumes notClosed: "\<not> storedClosed pollId d"
  shows
  "(isl (fst (addVoteToPollOption pollId optionId username' now d)) \<longleftrightarrow>
      pollId = [] \<or> optionId = [] \<or> username' = [] \<or>
      (case findPollById pollId d of
         None \<Rightarrow> True
       | Some poll \<Rightarrow>
           pollDueDate poll \<le> now \<or>
           list_ex (\<lambda>option. username' \<in> set (usersVoted option)) (options poll) \<or>
           pollOptionById optionId d = None)) \<and>
   (isl (fst (addVoteToPollOption pollId optionId username' now d)) \<longrightarrow>
      snd (addVoteToPollOption pollId optionId username' now d) = d) \<and>
   (\<not> isl (fst (addVoteToPollOption pollId optionId username' now d)) \<longrightarrow>
      (let d' = snd (addVoteToPollOption pollId optionId username' now d)
       in d' = d\<lparr>PollOptionModel :=
                   update_first (\<lambda>op. oid op = optionId)
                     (\<lambda>op. op\<lparr>usersVoted := addToSet username' (usersVoted op)\<rparr>)
                     (PollOptionModel d)\<rparr> \<and>
          pollOptionById optionId d' =
            map_option (\<lambda>op. op\<lparr>usersVoted := addToSet username' (usersVoted op)\<rparr>)
              (pollOptionById optionId d) \<and>
          map_option Inr (findPollById pollId d') =
            Some (fst (addVoteToPollOption pollId optionId username' now d))))"
proof -
  let ?d1 = "d\<lparr>PollOptionModel :=
                   update_first (\<lambda>op. oid op = optionId)
                     (\<lambda>op. op\<lparr>usersVoted := addToSet username' (usersVoted op)\<rparr>)
                     (PollOptionModel d)\<rparr>"
  have refetch: "findPollById pollId ?d1 \<noteq> None" if "findPollById pollId d \<noteq> None"
    using that by (simp add: findPollById_def)
  have f: "find (\<lambda>op. oid op = optionId) (PollOptionModel ?d1) =
            map_option (\<lambda>op. op\<lparr>usersVoted := addToSet username' (usersVoted op)\<rparr>)
              (find (\<lambda>op. oid op = optionId) (PollOptionModel d))"
    using find_update_first[of "\<lambda>op. oid op = optionId"
        "\<lambda>op. op\<lparr>usersVoted := addToSet username' (usersVoted op)\<rparr>" "PollOptionModel d"]
    by simp
  show ?thesis
  proof (cases "findPollById pollId d")
    case None
    then show ?thesis by (simp add: addVoteToPollOption_def)
  next
    case (Some poll)
    then obtain up where up: "findPollById pollId ?d1 = Some up" using refetch by auto
    have flag: "isClosed poll = None" using Some by (rule findPollById_isClosed)
    show ?thesis using Some up f flag
      by (simp add: addVoteToPollOption_def Let_def findOne_def pollOptionById_def
          split: option.splits)
  qed
qed

theorem addVoteToPollOption_result_witness:
  "\<not> storedClosed ''p1'' dbPolls \<and>
   \<not> isl (fst (addVoteToPollOption ''p1'' ''o2'' ''carol'' 10 dbPolls)) \<and>
   pollOptionById ''o2'' (snd (addVoteToPollOption ''p1'' ''o2'' ''carol'' 10 dbPolls)) =
     Some (option2\<lparr>usersVoted := [''carol'']\<rparr>) \<and>
   isl (fst (addVoteToPollOption ''p1'' ''o2'' ''bob'' 10 dbPolls)) \<and>
   snd (addVoteToPollOption ''p1'' ''o2'' ''bob'' 10 dbPolls) = dbPolls"
proof -
  have h: "\<not> storedClosed ''p1'' dbPolls" by code_simp
  have a: "\<not> isl (fst (addVoteToPollOption ''p1'' ''o2'' ''carol'' 10 dbPolls))" by code_simp
  have b: "isl (fst (addVoteToPollOption ''p1'' ''o2'' ''bob'' 10 dbPolls))" by code_simp
  have c: "map_option (\<lambda>op. op\<lparr>usersVoted := addToSet ''carol'' (usersVoted op)\<rparr>)
              (pollOptionById ''o2'' dbPolls) = Some (option2\<lparr>usersVoted := [''carol'']\<rparr>)"
    by code_simp
  have "pollOptionById ''o2'' (snd (addVoteToPollOption ''p1'' ''o2'' ''carol'' 10 dbPolls)) =
     map_option (\<lambda>op. op\<lparr>usersVoted := addToSet ''carol'' (usersVoted op)\<rparr>)
       (pollOptionById ''o2'' dbPolls)"
    using addVoteToPollOption_result[OF h, of "''o2''" "''carol''" 10] a
    unfolding Let_def by blast
  then have "pollOptionById ''o2'' (snd (addVoteToPollOption ''p1'' ''o2'' ''carol'' 10 dbPolls)) =
     Some (option2\<lparr>usersVoted := [''carol'']\<rparr>)"
    using c by (simp only:)
  moreover have "snd (addVoteToPollOption ''p1'' ''o2'' ''bob'' 10 dbPolls) = dbPolls"
    using addVoteToPollOption_result[OF h, of "''o2''" "''bob''" 10] b by blast
  ultimately show ?thesis using h a b by simp
qed

text \<open>
  The claim as stated fails for an empty username: the poll and the option exist, the
  poll is kept with isClosed false and is not due, nobody of that name has voted, and
  the vote is an error.
\<close>

theorem addVoteToPollOption_result_counterexample:
  "findPollById ''p1'' dbPolls \<noteq> None \<and> pollOptionById ''o2'' dbPolls \<noteq> None \<and>
   isClosed poll1 = Some False \<and> \<not> storedClosed ''p1'' dbPolls \<and>
   map_option pollDueDate (findPollById ''p1'' dbPolls) = Some 100 \<and> (10::int) < 100 \<and>
   map_option (list_ex (\<lambda>option. '''' \<in> set (usersVoted option)) \<circ> options)
     (findPollById ''p1'' dbPolls) = Some False \<and>
   addVoteToPollOption ''p1'' ''o2'' '''' 10 dbPolls = (Inl ''Invalid input data'', dbPolls)"
  by code_simp

text \<open>
  Claim C10. A vote in which pollId, optionId or username is empty returns the error
  Invalid input data and the store it was given; the result is the same whatever the
  store holds and whatever the time is, so nothing of the store is read.
\<close>

theorem addVoteToPollOption_invalid_input:
  assumes "pollId = [] \<or> optionId = [] \<or> username' = []"
  shows "addVoteToPollOption pollId optionId username' now d = (Inl ''Invalid input data'', d) \<and>
         fst (addVoteToPollOption pollId optionId username' now d)
           = fst (addVoteToPollOption pollId optionId username' now' d')"
  using assms by (simp add: addVoteToPollOption_def)

theorem addVoteToPollOption_invalid_input_witness:
  "addVoteToPollOption ''p1'' [] ''carol'' 10 dbPolls = (Inl ''Invalid input data'', dbPolls) \<and>
   fst (addVoteToPollOption ''p1'' [] ''carol'' 10 dbPolls)
     = fst (addVoteToPollOption ''p1'' [] ''carol'' 700 db0)"
proof -
  have h: "''p1'' = [] \<or> ([]::string) = [] \<or> ''carol'' = []" by simp
  show ?thesis by (rule addVoteToPollOption_invalid_input[OF h])
qed

text \<open>
  Claim C5 fails on the code. The collection keeps poll p1 with due date 100 and isClosed
  false, poll p2 with due date 50 and isClosed true, and poll p3 with due date 500. At
  time 200 closeExpiredPolls returns p1 (with strictQuery off) or p1 and p2 (with
  strictQuery on), each with its options populated; it sets isClosed on no poll, the
  collection is what it was, p1 is still kept with isClosed false, and isClosed is not
  true in any poll that is returned. A poll p4 with due date 80 that was saved through
  the model, so that nothing is kept under isClosed, is not returned at all with
  strictQuery off, and is returned as it is, and not closed, with strictQuery on.
\<close>

theorem closeExpiredPolls_closes_nothing:
  "pollDueDate poll1 = 100 \<and> isClosed poll1 = Some False \<and>
   pollDueDate poll2 = 50 \<and> isClosed poll2 = Some True \<and>
   PollModel dbPolls = [poll1, poll2, poll3] \<and>
   closeExpiredPolls False 200 dbPolls =
     (Inr [\<lparr>pid = ''p1'', options = [option1, option2], createdBy = ''alice'', pollDueDate = 100,
            isClosed = None\<rparr>],
      dbPolls) \<and>
   closeExpiredPolls True 200 dbPolls =
     (Inr [\<lparr>pid = ''p1'', options = [option1, option2], createdBy = ''alice'', pollDueDate = 100,
            isClosed = None\<rparr>,
           \<lparr>pid = ''p2'', options = [option3], createdBy = ''bob'', pollDueDate = 50,
            isClosed = None\<rparr>],
      dbPolls) \<and>
   PollModel dbPollsAsSaved = [poll4] \<and> pollDueDate poll4 = 80 \<and> isClosed poll4 = None \<and>
   closeExpiredPolls False 200 dbPollsAsSaved = (Inr [], dbPollsAsSaved) \<and>
   closeExpiredPolls True 200 dbPollsAsSaved =
     (Inr [\<lparr>pid = ''p4'', options = [option2], createdBy = ''carol'', pollDueDate = 80,
            isClosed = None\<rparr>],
      dbPollsAsSaved)"
  by code_simp

section \<open>Challenge progress\<close>







section \<open>Ranking\<close>

text \<open>
  Claim C8. For questions read from the store, which all have an id and no two the same,
  the order active returns the questions it was given, every question with an answer
  before every question without one, the questions with answers by the latest time of
  an answer, latest first, and questions that tie (the same latest answer time, or no
  answer at all) by the time they were asked, newest first.
\<close>

theorem rank_active_order:
  assumes ids: "list_all (\<lambda>q. qid q \<noteq> None) (cells h qlist)"
    and dist: "distinct (map qid (cells h qlist))"
    and run: "rank active qlist h = (r, h')"
  shows "sorted_wrt activeBefore (cells h' r) \<and>
         mset (cells h' r) = mset (cells h qlist) \<and>
         (\<forall>i j. i < j \<longrightarrow> j < length (cells h' r) \<longrightarrow>
            answers (cells h' r ! i) = [] \<longrightarrow> answers (cells h' r ! j) = [])"
proof -
  have c: "cells h' r = array_sort (activeCompare (fold getMostRecentAnswerTime (cells h qlist) Map.empty))
                 (array_sort newestCompare (cells h qlist))"
    using run
    by (auto simp: rank_def sortQuestionsByActive_def sortQuestionsByNewest_def sort_in_place_def Let_def)
  have srt: "sorted_wrt activeBefore (cells h' r)" using c active_sorted[OF ids dist] by simp
  have last: "answers (cells h' r ! j) = []"
    if "i < j" "j < length (cells h' r)" "answers (cells h' r ! i) = []" for i j
  proof -
    have "activeBefore (cells h' r ! i) (cells h' r ! j)"
      using srt that(1,2) by (simp add: sorted_wrt_iff_nth_less)
    then show ?thesis using that(3)
      by (auto simp: activeBefore_def latestAnswerTime_def split: if_splits option.splits)
  qed
  show ?thesis using srt c last by (simp add: array_sort_mset)
qed

theorem rank_active_order_witness:
  "list_all (\<lambda>q. qid q \<noteq> None) (cells heap1 0) \<and> distinct (map qid (cells heap1 0)) \<and>
   cells heap1 0 = [unanswered3, answered1, unanswered4, answered2] \<and>
   cells (snd (rank active 0 heap1)) (fst (rank active 0 heap1))
     = [answered2, answered1, unanswered4, unanswered3] \<and>
   sorted_wrt activeBefore [answered2, answered1, unanswered4, unanswered3]"
proof -
  have h1: "list_all (\<lambda>q. qid q \<noteq> None) (cells heap1 0)" by code_simp
  have h2: "distinct (map qid (cells heap1 0))" by code_simp
  have h3: "rank active 0 heap1 = (fst (rank active 0 heap1), snd (rank active 0 heap1))" by simp
  have c0: "cells heap1 0 = [unanswered3, answered1, unanswered4, answered2]" by code_simp
  have c: "cells (snd (rank active 0 heap1)) (fst (rank active 0 heap1))
     = [answered2, answered1, unanswered4, unanswered3]" by code_simp
  have "sorted_wrt activeBefore (cells (snd (rank active 0 heap1)) (fst (rank active 0 heap1)))"
    using rank_active_order[OF h1 h2 h3] by blast
  then have "sorted_wrt activeBefore [answered2, answered1, unanswered4, unanswered3]"
    using c by (simp only:)
  then show ?thesis using h1 h2 c0 c by blast
qed

text \<open>
  Claim C9 fails on the code. Every order sorts the array it is given in place: newest,
  active and mostViewed return that same array, and unanswered returns a new one after it
  has sorted the input. Here the input array holds an older question before a newer one;
  after the call it holds the newer one first, and the array returned for newest and for
  mostViewed is the input array.
\<close>

theorem rank_mutates_input:
  "cells heap0 0 = [question1, question2] \<and>
   fst (rank newest 0 heap0) = 0 \<and>
   cells (snd (rank newest 0 heap0)) 0 = [question2, question1] \<and>
   fst (rank mostViewed 0 heap0) = 0 \<and>
   cells (snd (rank mostViewed 0 heap0)) 0 = [question2, question1] \<and>
   fst (rank unanswered 0 heap0) = 1 \<and>
   cells (snd (rank unanswered 0 heap0)) 0 = [question2, question1] \<and>
   cells (snd (rank active 0 heap0)) 0 = [question2, question1]"
  by code_simp

end
